theory Spec2Isabelle
  imports Complex_Main "HOL-Library.Log_Nat"
begin

section \<open>The box editor of CropReview.tsx\<close>

text \<open>
  The development embeds the editing and export logic of
  \<^verbatim>\<open>src/components/CropReview.tsx\<close>. JavaScript numbers are doubles. The
  pointer-move step is given twice: with an explicit rounding function applied to the
  result of every sum, difference, product and quotient (\<open>handleMouseMoveR\<close>, with
  \<open>fl64\<close> for the rounding of doubles), and without rounding, over the real numbers
  (\<open>handleMouseMove\<close>, the instance of the former at the identity). Hit testing and
  export are given over the real numbers. A computation that would leave the real numbers
  (a division by a zero canvas dimension, a field read of \<^verbatim>\<open>undefined\<close>) is a
  fault value of the model. Pixel contents are not modelled: a crop is the source
  rectangle that the exporter hands to \<^verbatim>\<open>drawImage\<close>.
\<close>

subsection \<open>Data\<close>

text \<open>\<^verbatim>\<open>interface BoundingBox\<close> of the types module, fields in declaration order.\<close>

record BoundingBox =
  ymin :: real
  xmin :: real
  ymax :: real
  xmax :: real

datatype DragMode = DragNone | DragMove | DragResize

datatype HandlePosition = NW | NE | SW | SE

text \<open>The string behind each handle, as \<^verbatim>\<open>dragHandle.includes\<close> reads it.\<close>

fun handleName :: "HandlePosition \<Rightarrow> string" where
  "handleName NW = ''nw''"
| "handleName NE = ''ne''"
| "handleName SW = ''sw''"
| "handleName SE = ''se''"

definition handleIncludes :: "HandlePosition \<Rightarrow> char \<Rightarrow> bool" where
  "handleIncludes h c = (c \<in> set (handleName h))"

record Point =
  px :: real
  py :: real

text \<open>The canvas element (its backing-store size) and the loaded image.\<close>

record Canvas =
  width :: nat
  height :: nat

record Image =
  naturalWidth :: nat
  naturalHeight :: nat

text \<open>The component's \<^verbatim>\<open>useState\<close> cells.\<close>

record Editor =
  boxes :: "BoundingBox list"
  selectedIndex :: "nat option"
  selectedCategoryId :: string
  newCategoryName :: string
  dragMode :: DragMode
  dragHandle :: "HandlePosition option"
  isDragging :: bool
  dragStart :: Point

text \<open>
  \<^verbatim>\<open>TypeError\<close>: a property of \<^verbatim>\<open>undefined\<close> is read (the selected index is
  beyond the collection) and the handler ends with that exception. \<^verbatim>\<open>NonFinite\<close>:
  the step leaves the finite numbers, because a canvas dimension is zero (the deltas are
  NaN or an infinity) or because, in resizing, the selected index is beyond the collection
  (the spread of \<^verbatim>\<open>undefined\<close> has no edges and the new ones are NaN). The source
  raises nothing then and stores the box it computed; the model stops at this value and
  does not follow that box.
\<close>

datatype fault = TypeError | NonFinite

text \<open>Initial values of the state cells; \<^verbatim>\<open>boxes\<close> starts as the prop \<^verbatim>\<open>detectedBoxes\<close>.\<close>

definition initEditor :: "BoundingBox list \<Rightarrow> Editor" where
  "initEditor detectedBoxes =
     \<lparr>boxes = detectedBoxes, selectedIndex = None, selectedCategoryId = [],
      newCategoryName = [], dragMode = DragNone, dragHandle = None,
      isDragging = False, dragStart = \<lparr>px = 0, py = 0\<rparr>\<rparr>"

text \<open>The effect on \<^verbatim>\<open>detectedBoxes\<close>: \<^verbatim>\<open>setBoxes(detectedBoxes)\<close>.\<close>

definition syncDetectedBoxes :: "Editor \<Rightarrow> BoundingBox list \<Rightarrow> Editor" where
  "syncDetectedBoxes s detectedBoxes = s\<lparr>boxes := detectedBoxes\<rparr>"

subsection \<open>Coordinate conversion\<close>

definition normToPixel :: "real \<Rightarrow> real \<Rightarrow> real" where
  "normToPixel val mx = (val / 1000) * mx"

definition pixelToNorm :: "real \<Rightarrow> real \<Rightarrow> real" where
  "pixelToNorm val mx = (val / mx) * 1000"

subsection \<open>Hit testing and pointer-down\<close>

definition getHandleHit ::
  "Canvas option \<Rightarrow> BoundingBox list \<Rightarrow> real \<Rightarrow> real \<Rightarrow> nat \<Rightarrow> fault + HandlePosition option" where
  "getHandleHit canvasRef bs x y boxIdx =
     (case canvasRef of
        None \<Rightarrow> Inr None
      | Some canvas \<Rightarrow>
          if length bs \<le> boxIdx then Inl TypeError
          else
            let box = bs ! boxIdx;
                bx = normToPixel (xmin box) (real (width canvas));
                by = normToPixel (ymin box) (real (height canvas));
                bw = normToPixel (xmax box - xmin box) (real (width canvas));
                bh = normToPixel (ymax box - ymin box) (real (height canvas));
                tol = (real (width canvas) / 1000) * 40
            in if \<bar>x - bx\<bar> < tol \<and> \<bar>y - by\<bar> < tol then Inr (Some NW)
               else if \<bar>x - (bx + bw)\<bar> < tol \<and> \<bar>y - by\<bar> < tol then Inr (Some NE)
               else if \<bar>x - bx\<bar> < tol \<and> \<bar>y - (by + bh)\<bar> < tol then Inr (Some SW)
               else if \<bar>x - (bx + bw)\<bar> < tol \<and> \<bar>y - (by + bh)\<bar> < tol then Inr (Some SE)
               else Inr None)"

text \<open>The test of one box body in the loop of \<^verbatim>\<open>handleMouseDown\<close>.\<close>

definition insideBox :: "Canvas \<Rightarrow> BoundingBox \<Rightarrow> real \<Rightarrow> real \<Rightarrow> bool" where
  "insideBox canvas box x y =
     (let bx = normToPixel (xmin box) (real (width canvas));
          by = normToPixel (ymin box) (real (height canvas));
          bw = normToPixel (xmax box - xmin box) (real (width canvas));
          bh = normToPixel (ymax box - ymin box) (real (height canvas))
      in x \<ge> bx \<and> x \<le> bx + bw \<and> y \<ge> by \<and> y \<le> by + bh)"

text \<open>
  The loop \<^verbatim>\<open>for (let i = boxes.length - 1; i >= 0; i--)\<close> with its
  \<^verbatim>\<open>break\<close>: \<open>clickedFrom \<dots> n\<close> has the indices below \<open>n\<close> still to visit.
\<close>

fun clickedFrom :: "Canvas \<Rightarrow> BoundingBox list \<Rightarrow> real \<Rightarrow> real \<Rightarrow> nat \<Rightarrow> nat option" where
  "clickedFrom canvas bs x y 0 = None"
| "clickedFrom canvas bs x y (Suc i) =
     (if insideBox canvas (bs ! i) x y then Some i else clickedFrom canvas bs x y i)"

definition handleMouseDown :: "Canvas option \<Rightarrow> Editor \<Rightarrow> real \<Rightarrow> real \<Rightarrow> fault + Editor" where
  "handleMouseDown canvasRef s x y =
     (case canvasRef of
        None \<Rightarrow> Inr s
      | Some canvas \<Rightarrow>
          (case (case selectedIndex s of
                   None \<Rightarrow> Inr None
                 | Some i \<Rightarrow> getHandleHit canvasRef (boxes s) x y i) of
             Inl e \<Rightarrow> Inl e
           | Inr (Some handle) \<Rightarrow>
               Inr (s\<lparr>dragMode := DragResize, dragHandle := Some handle, isDragging := True\<rparr>)
           | Inr None \<Rightarrow>
               (case clickedFrom canvas (boxes s) x y (length (boxes s)) of
                  Some clickedIndex \<Rightarrow>
                    Inr (s\<lparr>selectedIndex := Some clickedIndex, dragMode := DragMove,
                           isDragging := True, dragStart := \<lparr>px = x, py = y\<rparr>\<rparr>)
                | None \<Rightarrow> Inr (s\<lparr>selectedIndex := None\<rparr>))))"

subsection \<open>Pointer-move: translating and resizing the selected box\<close>

text \<open>
  The \<^verbatim>\<open>move\<close> branch: the new box and the four edge corrections, in order,
  computed without rounding.
\<close>

definition moveBox :: "BoundingBox \<Rightarrow> real \<Rightarrow> real \<Rightarrow> BoundingBox" where
  "moveBox currentBox dx dy =
     (let newBox0 = \<lparr>ymin = max 0 (min 1000 (ymin currentBox + dy)),
                     xmin = max 0 (min 1000 (xmin currentBox + dx)),
                     ymax = max 0 (min 1000 (ymax currentBox + dy)),
                     xmax = max 0 (min 1000 (xmax currentBox + dx))\<rparr>;
          w = xmax currentBox - xmin currentBox;
          h = ymax currentBox - ymin currentBox;
          newBox1 = (if xmin newBox0 = 0 then newBox0\<lparr>xmax := w\<rparr> else newBox0);
          newBox2 = (if xmax newBox1 = 1000 then newBox1\<lparr>xmin := 1000 - w\<rparr> else newBox1);
          newBox3 = (if ymin newBox2 = 0 then newBox2\<lparr>ymax := h\<rparr> else newBox2);
          newBox4 = (if ymax newBox3 = 1000 then newBox3\<lparr>ymin := 1000 - h\<rparr> else newBox3)
      in newBox4)"

text \<open>The \<^verbatim>\<open>resize\<close> branch on a copy of the current box, the four tests in order.\<close>

definition resizeBox :: "BoundingBox \<Rightarrow> HandlePosition \<Rightarrow> real \<Rightarrow> real \<Rightarrow> BoundingBox" where
  "resizeBox currentBox handle normX normY =
     (let box0 = currentBox;
          box1 = (if handleIncludes handle CHR ''w''
                  then box0\<lparr>xmin := min normX (xmax box0 - 50)\<rparr> else box0);
          box2 = (if handleIncludes handle CHR ''e''
                  then box1\<lparr>xmax := max normX (xmin box1 + 50)\<rparr> else box1);
          box3 = (if handleIncludes handle CHR ''n''
                  then box2\<lparr>ymin := min normY (ymax box2 - 50)\<rparr> else box2);
          box4 = (if handleIncludes handle CHR ''s''
                  then box3\<lparr>ymax := max normY (ymin box3 + 50)\<rparr> else box3)
      in box4)"

definition handleMouseMove :: "Canvas option \<Rightarrow> Editor \<Rightarrow> real \<Rightarrow> real \<Rightarrow> fault + Editor" where
  "handleMouseMove canvasRef s x y =
     (if \<not> isDragging s then Inr s
      else case selectedIndex s of
        None \<Rightarrow> Inr s
      | Some idx \<Rightarrow>
         (case canvasRef of
            None \<Rightarrow> Inr s
          | Some canvas \<Rightarrow>
              if dragMode s = DragMove then
                (if length (boxes s) \<le> idx then Inl TypeError
                 else if width canvas = 0 \<or> height canvas = 0 then Inl NonFinite
                 else
                   let currentBox = boxes s ! idx;
                       dx = pixelToNorm (x - px (dragStart s)) (real (width canvas));
                       dy = pixelToNorm (y - py (dragStart s)) (real (height canvas))
                   in Inr (s\<lparr>boxes := (boxes s)[idx := moveBox currentBox dx dy],
                             dragStart := \<lparr>px = x, py = y\<rparr>\<rparr>))
              else if dragMode s = DragResize \<and> dragHandle s \<noteq> None then
                (if length (boxes s) \<le> idx then Inl NonFinite
                 else if width canvas = 0 \<or> height canvas = 0 then Inl NonFinite
                 else
                   let currentBox = boxes s ! idx;
                       normX = max 0 (min 1000 (pixelToNorm x (real (width canvas))));
                       normY = max 0 (min 1000 (pixelToNorm y (real (height canvas))))
                   in Inr (s\<lparr>boxes := (boxes s)[idx := resizeBox currentBox (the (dragHandle s)) normX normY]\<rparr>))
              else Inr s))"

definition handleMouseUp :: "Editor \<Rightarrow> Editor" where
  "handleMouseUp s = s\<lparr>isDragging := False, dragMode := DragNone, dragHandle := None\<rparr>"

subsection \<open>Pointer-move in double arithmetic\<close>

text \<open>
  Rounding to the nearest double, ties to even. \<open>binade x\<close> is the exponent \<open>e\<close> with
  \<open>2 powi e \<le> \<bar>x\<bar>\<close> and \<open>\<bar>x\<bar> < 2 powi (e + 1)\<close>, for \<open>\<bar>x\<bar>\<close> from the smallest
  subnormal \<open>2 powi (- 1074)\<close> on; \<open>quantum x\<close> is the exponent of the spacing of the
  doubles there (52 fraction bits, and \<open>2 powi (- 1074)\<close> in the subnormal range); and
  \<open>fl64 x\<close> is the multiple of that spacing nearest to \<open>x\<close>. Magnitudes from
  \<open>2 powi 1024\<close> on, which the program turns into an infinity, are not followed.
\<close>

definition roundTiesToEven :: "real \<Rightarrow> int" where
  "roundTiesToEven v =
     (let f = \<lfloor>v\<rfloor>
      in if v - of_int f < 1 / 2 then f
         else if 1 / 2 < v - of_int f then f + 1
         else if even f then f else f + 1)"

definition binade :: "real \<Rightarrow> int" where
  "binade x = bitlen \<lfloor>\<bar>x\<bar> * 2 ^ 1074\<rfloor> - 1075"

definition quantum :: "real \<Rightarrow> int" where
  "quantum x = max (binade x - 52) (- 1074)"

definition fl64 :: "real \<Rightarrow> real" where
  "fl64 x = of_int (roundTiesToEven (x / 2 powi quantum x)) * 2 powi quantum x"

text \<open>
  The conversion and the two branches of \<^verbatim>\<open>handleMouseMove\<close> with every arithmetic
  result rounded by \<open>rnd\<close>; \<^verbatim>\<open>Math.max\<close> and \<^verbatim>\<open>Math.min\<close> return one of their
  arguments and round nothing.
\<close>

definition pixelToNormR :: "(real \<Rightarrow> real) \<Rightarrow> real \<Rightarrow> real \<Rightarrow> real" where
  "pixelToNormR rnd val mx = rnd (rnd (val / mx) * 1000)"

definition moveBoxR :: "(real \<Rightarrow> real) \<Rightarrow> BoundingBox \<Rightarrow> real \<Rightarrow> real \<Rightarrow> BoundingBox" where
  "moveBoxR rnd currentBox dx dy =
     (let newBox0 = \<lparr>ymin = max 0 (min 1000 (rnd (ymin currentBox + dy))),
                     xmin = max 0 (min 1000 (rnd (xmin currentBox + dx))),
                     ymax = max 0 (min 1000 (rnd (ymax currentBox + dy))),
                     xmax = max 0 (min 1000 (rnd (xmax currentBox + dx)))\<rparr>;
          w = rnd (xmax currentBox - xmin currentBox);
          h = rnd (ymax currentBox - ymin currentBox);
          newBox1 = (if xmin newBox0 = 0 then newBox0\<lparr>xmax := w\<rparr> else newBox0);
          newBox2 = (if xmax newBox1 = 1000 then newBox1\<lparr>xmin := rnd (1000 - w)\<rparr> else newBox1);
          newBox3 = (if ymin newBox2 = 0 then newBox2\<lparr>ymax := h\<rparr> else newBox2);
          newBox4 = (if ymax newBox3 = 1000 then newBox3\<lparr>ymin := rnd (1000 - h)\<rparr> else newBox3)
      in newBox4)"

definition resizeBoxR ::
  "(real \<Rightarrow> real) \<Rightarrow> BoundingBox \<Rightarrow> HandlePosition \<Rightarrow> real \<Rightarrow> real \<Rightarrow> BoundingBox" where
  "resizeBoxR rnd currentBox handle normX normY =
     (let box0 = currentBox;
          box1 = (if handleIncludes handle CHR ''w''
                  then box0\<lparr>xmin := min normX (rnd (xmax box0 - 50))\<rparr> else box0);
          box2 = (if handleIncludes handle CHR ''e''
                  then box1\<lparr>xmax := max normX (rnd (xmin box1 + 50))\<rparr> else box1);
          box3 = (if handleIncludes handle CHR ''n''
                  then box2\<lparr>ymin := min normY (rnd (ymax box2 - 50))\<rparr> else box2);
          box4 = (if handleIncludes handle CHR ''s''
                  then box3\<lparr>ymax := max normY (rnd (ymin box3 + 50))\<rparr> else box3)
      in box4)"

definition handleMouseMoveR ::
  "(real \<Rightarrow> real) \<Rightarrow> Canvas option \<Rightarrow> Editor \<Rightarrow> real \<Rightarrow> real \<Rightarrow> fault + Editor" where
  "handleMouseMoveR rnd canvasRef s x y =
     (if \<not> isDragging s then Inr s
      else case selectedIndex s of
        None \<Rightarrow> Inr s
      | Some idx \<Rightarrow>
         (case canvasRef of
            None \<Rightarrow> Inr s
          | Some canvas \<Rightarrow>
              if dragMode s = DragMove then
                (if length (boxes s) \<le> idx then Inl TypeError
                 else if width canvas = 0 \<or> height canvas = 0 then Inl NonFinite
                 else
                   let currentBox = boxes s ! idx;
                       dx = pixelToNormR rnd (rnd (x - px (dragStart s))) (real (width canvas));
                       dy = pixelToNormR rnd (rnd (y - py (dragStart s))) (real (height canvas))
                   in Inr (s\<lparr>boxes := (boxes s)[idx := moveBoxR rnd currentBox dx dy],
                             dragStart := \<lparr>px = x, py = y\<rparr>\<rparr>))
              else if dragMode s = DragResize \<and> dragHandle s \<noteq> None then
                (if length (boxes s) \<le> idx then Inl NonFinite
                 else if width canvas = 0 \<or> height canvas = 0 then Inl NonFinite
                 else
                   let currentBox = boxes s ! idx;
                       normX = max 0 (min 1000 (pixelToNormR rnd x (real (width canvas))));
                       normY = max 0 (min 1000 (pixelToNormR rnd y (real (height canvas))))
                   in Inr (s\<lparr>boxes := (boxes s)[idx := resizeBoxR rnd currentBox (the (dragHandle s)) normX normY]\<rparr>))
              else Inr s))"

subsection \<open>Adding and deleting boxes\<close>

definition handleAddBox :: "Editor \<Rightarrow> Editor" where
  "handleAddBox s =
     (let newBox = \<lparr>ymin = 400, xmin = 400, ymax = 600, xmax = 600\<rparr>
      in s\<lparr>boxes := boxes s @ [newBox], selectedIndex := Some (length (boxes s))\<rparr>)"

definition handleDeleteBox :: "Editor \<Rightarrow> Editor" where
  "handleDeleteBox s =
     (case selectedIndex s of
        None \<Rightarrow> s
      | Some idx \<Rightarrow>
          s\<lparr>boxes := map snd (filter (\<lambda>(i, b). i \<noteq> idx) (enumerate 0 (boxes s))),
            selectedIndex := None\<rparr>)"

subsection \<open>Export\<close>

text \<open>The source rectangle \<^verbatim>\<open>(sx, sy, sw, sh)\<close> of one \<^verbatim>\<open>drawImage\<close> call.\<close>

record Crop =
  sx :: real
  sy :: real
  sw :: real
  sh :: real

text \<open>The call of \<^verbatim>\<open>onConfirm(cropped, selectedCategoryId || null)\<close>.\<close>

datatype HostCall = OnConfirm "Crop list" "string option"

text \<open>The body of the \<^verbatim>\<open>forEach\<close> callback of \<^verbatim>\<open>handleProcess\<close>.\<close>

definition cropBox :: "Image \<Rightarrow> BoundingBox \<Rightarrow> Crop" where
  "cropBox img box =
     (let w = ((xmax box - xmin box) / 1000) * real (naturalWidth img);
          h = ((ymax box - ymin box) / 1000) * real (naturalHeight img);
          x = (xmin box / 1000) * real (naturalWidth img);
          y = (ymin box / 1000) * real (naturalHeight img);
          padding = max 20 (real (naturalWidth img) / 100);
          sx' = max 0 (x - padding);
          sy' = max 0 (y - padding);
          sw' = min (real (naturalWidth img) - sx') (w + padding * 2);
          sh' = min (real (naturalHeight img) - sy') (h + padding * 2)
      in \<lparr>sx = sx', sy = sy', sw = sw', sh = sh'\<rparr>)"

text \<open>
  \<open>imgRef\<close> is the image reference (empty until the image has loaded) and \<open>ctx\<close> says
  whether the scratch canvas gave a 2D context. The result is the editor state after the
  call together with the call made to the host, if any.
\<close>

definition handleProcess :: "Image option \<Rightarrow> bool \<Rightarrow> Editor \<Rightarrow> Editor \<times> HostCall option" where
  "handleProcess imgRef ctx s =
     (case imgRef of
        None \<Rightarrow> (s, None)
      | Some img \<Rightarrow>
          if \<not> ctx then (s, None)
          else
            let cropped = foldl (\<lambda>acc box. acc @ [cropBox img box]) [] (boxes s)
            in (s, Some (OnConfirm cropped
                  (if selectedCategoryId s = [] then None else Some (selectedCategoryId s)))))"

text \<open>
  The same call with its way of ending made explicit. No path of \<^verbatim>\<open>handleProcess\<close>
  has a \<^verbatim>\<open>throw\<close>, sets an error state or returns a value: each one is a plain
  return. (What \<^verbatim>\<open>drawImage\<close> and \<^verbatim>\<open>toDataURL\<close> may raise inside the browser is
  not modelled.)
\<close>

definition handleProcessResult ::
  "Image option \<Rightarrow> bool \<Rightarrow> Editor \<Rightarrow> fault + Editor \<times> HostCall option" where
  "handleProcessResult imgRef ctx s = Inr (handleProcess imgRef ctx s)"

subsection \<open>Events\<close>

text \<open>The bindings of the handlers to the canvas and the buttons.\<close>

datatype Event =
    MouseDown real real
  | MouseMove real real
  | MouseUp
  | AddBox
  | DeleteBox

fun step :: "Canvas option \<Rightarrow> Editor \<Rightarrow> Event \<Rightarrow> fault + Editor" where
  "step canvasRef s (MouseDown x y) = handleMouseDown canvasRef s x y"
| "step canvasRef s (MouseMove x y) = handleMouseMove canvasRef s x y"
| "step canvasRef s MouseUp = Inr (handleMouseUp s)"
| "step canvasRef s AddBox = Inr (handleAddBox s)"
| "step canvasRef s DeleteBox = Inr (handleDeleteBox s)"

fun run :: "Canvas option \<Rightarrow> Editor \<Rightarrow> Event list \<Rightarrow> fault + Editor" where
  "run canvasRef s [] = Inr s"
| "run canvasRef s (e # es) =
     (case step canvasRef s e of Inl f \<Rightarrow> Inl f | Inr s' \<Rightarrow> run canvasRef s' es)"

subsection \<open>Notions of the specification\<close>

text \<open>The invariant of a normalized box: not inverted, not empty, inside \<open>[0, 1000]\<close>.\<close>

definition validBox :: "BoundingBox \<Rightarrow> bool" where
  "validBox b = (xmin b < xmax b \<and> ymin b < ymax b \<and>
                 0 \<le> xmin b \<and> xmax b \<le> 1000 \<and> 0 \<le> ymin b \<and> ymax b \<le> 1000)"

text \<open>A box at least as large as the floor that resizing keeps.\<close>

definition minimumSize :: "BoundingBox \<Rightarrow> bool" where
  "minimumSize b = (50 \<le> xmax b - xmin b \<and> 50 \<le> ymax b - ymin b)"

definition selectedHasMinimumSize :: "Editor \<Rightarrow> bool" where
  "selectedHasMinimumSize s =
     (case selectedIndex s of
        None \<Rightarrow> True
      | Some i \<Rightarrow> i < length (boxes s) \<longrightarrow> minimumSize (boxes s ! i))"

text \<open>
  The export region in the specification's words: the pixel rectangle of the box, grown
  by the padding on each of its four sides, then cut to the image.
\<close>

definition paddedRegion :: "Image \<Rightarrow> BoundingBox \<Rightarrow> Crop" where
  "paddedRegion img box =
     (let left = normToPixel (xmin box) (real (naturalWidth img));
          top = normToPixel (ymin box) (real (naturalHeight img));
          right = normToPixel (xmax box) (real (naturalWidth img));
          bottom = normToPixel (ymax box) (real (naturalHeight img));
          padding = max 20 (real (naturalWidth img) / 100);
          l = max 0 (left - padding);
          t = max 0 (top - padding);
          r = min (real (naturalWidth img)) (right + padding);
          b = min (real (naturalHeight img)) (bottom + padding)
      in \<lparr>sx = l, sy = t, sw = r - l, sh = b - t\<rparr>)"

text \<open>
  Hit testing in the specification's words: the corner a handle sits on, the pointer
  being within the tolerance of it on both axes, the pixel rectangle of a box containing
  the pointer (bounds included), and the first such box when the collection is walked
  from its last entry to its first.
\<close>

definition cornerOf :: "Canvas \<Rightarrow> BoundingBox \<Rightarrow> HandlePosition \<Rightarrow> real \<times> real" where
  "cornerOf canvas b h =
     (normToPixel (if h = NW \<or> h = SW then xmin b else xmax b) (real (width canvas)),
      normToPixel (if h = NW \<or> h = NE then ymin b else ymax b) (real (height canvas)))"

definition withinTolerance :: "Canvas \<Rightarrow> BoundingBox \<Rightarrow> real \<Rightarrow> real \<Rightarrow> HandlePosition \<Rightarrow> bool" where
  "withinTolerance canvas b x y h =
     (let tol = (real (width canvas) / 1000) * 40
      in \<bar>x - fst (cornerOf canvas b h)\<bar> < tol \<and> \<bar>y - snd (cornerOf canvas b h)\<bar> < tol)"

definition pixelRectContains :: "Canvas \<Rightarrow> BoundingBox \<Rightarrow> real \<Rightarrow> real \<Rightarrow> bool" where
  "pixelRectContains canvas b x y =
     (normToPixel (xmin b) (real (width canvas)) \<le> x \<and>
      x \<le> normToPixel (xmax b) (real (width canvas)) \<and>
      normToPixel (ymin b) (real (height canvas)) \<le> y \<and>
      y \<le> normToPixel (ymax b) (real (height canvas)))"

definition topmostContaining :: "Canvas \<Rightarrow> BoundingBox list \<Rightarrow> real \<Rightarrow> real \<Rightarrow> nat option" where
  "topmostContaining canvas bs x y =
     find (\<lambda>i. pixelRectContains canvas (bs ! i) x y) (rev [0..<length bs])"

text \<open>
  The rounding of one value is off by at most \<open>eps\<close>; and so are the roundings of the
  sums and differences that one move step computes.
\<close>

definition roundsWithin :: "(real \<Rightarrow> real) \<Rightarrow> real \<Rightarrow> real \<Rightarrow> bool" where
  "roundsWithin rnd eps v = (\<bar>rnd v - v\<bar> \<le> eps)"

definition moveRoundsWithin ::
  "(real \<Rightarrow> real) \<Rightarrow> real \<Rightarrow> BoundingBox \<Rightarrow> real \<Rightarrow> real \<Rightarrow> bool" where
  "moveRoundsWithin rnd eps b dx dy =
     (roundsWithin rnd eps (xmin b + dx) \<and> roundsWithin rnd eps (xmax b + dx) \<and>
      roundsWithin rnd eps (xmax b - xmin b) \<and>
      roundsWithin rnd eps (1000 - rnd (xmax b - xmin b)) \<and>
      roundsWithin rnd eps (ymin b + dy) \<and> roundsWithin rnd eps (ymax b + dy) \<and>
      roundsWithin rnd eps (ymax b - ymin b) \<and>
      roundsWithin rnd eps (1000 - rnd (ymax b - ymin b)))"

subsection \<open>Example inputs\<close>

definition squareImage :: Image where
  "squareImage = \<lparr>naturalWidth = 1000, naturalHeight = 1000\<rparr>"

definition squareCanvas :: Canvas where
  "squareCanvas = \<lparr>width = 1000, height = 1000\<rparr>"

text \<open>A 200-unit box being dragged, the pointer last seen at \<open>(500, 500)\<close>.\<close>

definition movingState :: Editor where
  "movingState =
     \<lparr>boxes = [\<lparr>ymin = 100, xmin = 50, ymax = 300, xmax = 250\<rparr>], selectedIndex = Some 0,
      selectedCategoryId = [], newCategoryName = [], dragMode = DragMove,
      dragHandle = None, isDragging = True, dragStart = \<lparr>px = 500, py = 500\<rparr>\<rparr>"

text \<open>
  A 200-unit box from 37 to 237 on a canvas 3000 pixels wide, about to be dragged 58
  pixels to the right.
\<close>

definition wideCanvas :: Canvas where
  "wideCanvas = \<lparr>width = 3000, height = 3000\<rparr>"

definition roundingState :: Editor where
  "roundingState =
     \<lparr>boxes = [\<lparr>ymin = 100, xmin = 37, ymax = 300, xmax = 237\<rparr>], selectedIndex = Some 0,
      selectedCategoryId = [], newCategoryName = [], dragMode = DragMove,
      dragHandle = None, isDragging = True, dragStart = \<lparr>px = 0, py = 0\<rparr>\<rparr>"


text \<open>A valid box from the detector that is 40 units wide and touches the right border.\<close>

definition narrowBox :: BoundingBox where
  "narrowBox = \<lparr>ymin = 0, xmin = 960, ymax = 100, xmax = 1000\<rparr>"

text \<open>A detector box that is inverted on the x axis and out of range on the y axis.\<close>

definition degenerateBox :: BoundingBox where
  "degenerateBox = \<lparr>ymin = - 5, xmin = 300, ymax = 2000, xmax = 100\<rparr>"

text \<open>Two overlapping boxes, in the order they were added.\<close>

definition boxA :: BoundingBox where
  "boxA = \<lparr>ymin = 100, xmin = 100, ymax = 500, xmax = 500\<rparr>"

definition boxB :: BoundingBox where
  "boxB = \<lparr>ymin = 300, xmin = 300, ymax = 700, xmax = 700\<rparr>"

text \<open>A box of the minimum size: all four handles are within reach of its centre.\<close>

definition smallBox :: BoundingBox where
  "smallBox = \<lparr>ymin = 400, xmin = 400, ymax = 450, xmax = 450\<rparr>"

section \<open>Export\<close>

lemma foldl_snoc_map: "foldl (\<lambda>acc box. acc @ [f box]) a xs = a @ map f xs"
  by (induction xs arbitrary: a) simp_all

text \<open>One crop per box, in the order of the collection.\<close>

lemma handleProcess_crops:
  "handleProcess (Some img) True s =
     (s, Some (OnConfirm (map (cropBox img) (boxes s))
                 (if selectedCategoryId s = [] then None else Some (selectedCategoryId s))))"
  by (simp add: handleProcess_def foldl_snoc_map)

text \<open>Every crop starts at a non-negative origin and ends inside the image.\<close>

lemma cropBox_within_image:
  "0 \<le> sx (cropBox img box) \<and> 0 \<le> sy (cropBox img box) \<and>
   sx (cropBox img box) + sw (cropBox img box) \<le> real (naturalWidth img) \<and>
   sy (cropBox img box) + sh (cropBox img box) \<le> real (naturalHeight img)"
  by (simp add: cropBox_def Let_def min_def)

text \<open>
  Where the box lies at least the padding away from the left and the top border, the crop
  is the padded and clamped rectangle.
\<close>

lemma cropBox_interior:
  assumes "max 20 (real (naturalWidth img) / 100) \<le> normToPixel (xmin box) (real (naturalWidth img))"
      and "max 20 (real (naturalWidth img) / 100) \<le> normToPixel (ymin box) (real (naturalHeight img))"
  shows "cropBox img box = paddedRegion img box"
  using assms
  by (simp add: cropBox_def paddedRegion_def normToPixel_def Let_def max_def min_def field_simps
           split: if_splits)

text \<open>
  C1. The exported crop of a box is its pixel rectangle grown by the padding on all four
  sides and then clamped to the image. At a box that touches the left and top border the
  exporter clamps the origin to 0 and still adds twice the padding to the size: for the
  box \<open>(0, 0)\<close>--\<open>(200, 200)\<close> on a 1000 by 1000 image it takes the region up to 240 on
  both axes, where the padded and clamped rectangle ends at 220.
\<close>

theorem export_near_edge_overshoot:
  "cropBox squareImage \<lparr>ymin = 0, xmin = 0, ymax = 200, xmax = 200\<rparr>
     = \<lparr>sx = 0, sy = 0, sw = 240, sh = 240\<rparr>
   \<and> paddedRegion squareImage \<lparr>ymin = 0, xmin = 0, ymax = 200, xmax = 200\<rparr>
     = \<lparr>sx = 0, sy = 0, sw = 220, sh = 220\<rparr>"
  by (simp add: cropBox_def paddedRegion_def normToPixel_def squareImage_def Let_def)

text \<open>
  C2, as amended. On a 1000 by 1000 image with the single box \<open>(100, 100)\<close>--\<open>(300, 300)\<close>
  and no category chosen, confirming hands the host exactly one crop, the region from 80
  to 320 on both axes (padding 20), and the category \<open>null\<close>.
\<close>

theorem scenario_crop_region:
  "snd (handleProcess (Some squareImage) True
          (initEditor [\<lparr>ymin = 100, xmin = 100, ymax = 300, xmax = 300\<rparr>]))
     = Some (OnConfirm [\<lparr>sx = 80, sy = 80, sw = 240, sh = 240\<rparr>] None)"
  by (simp add: handleProcess_def initEditor_def cropBox_def squareImage_def Let_def)

text \<open>C2 as stated fails: the crop is not the region from 90 to 310.\<close>

theorem scenario_crop_region_counterexample:
  "snd (handleProcess (Some squareImage) True
          (initEditor [\<lparr>ymin = 100, xmin = 100, ymax = 300, xmax = 300\<rparr>]))
     \<noteq> Some (OnConfirm [\<lparr>sx = 90, sy = 90, sw = 220, sh = 220\<rparr>] None)"
  by (simp add: handleProcess_def initEditor_def cropBox_def squareImage_def Let_def)

text \<open>
  C8, as amended. Without a loaded image the export is abandoned silently: the call
  returns before any crop is made, no call reaches the host, the editor state is as
  before, and nothing is raised or reported as a failure.
\<close>

theorem export_missing_image_abandoned:
  "handleProcessResult None ctx s = Inr (s, None)"
  by (simp add: handleProcessResult_def handleProcess_def)

text \<open>
  C8 as stated fails: with the image missing, the call on the scenario's editor ends as a
  plain return, not as a failure, with the same result as when the scratch canvas gives no
  drawing context.
\<close>

theorem export_missing_image_counterexample:
  "handleProcessResult None True
     (initEditor [\<lparr>ymin = 100, xmin = 100, ymax = 300, xmax = 300\<rparr>])
     = Inr (initEditor [\<lparr>ymin = 100, xmin = 100, ymax = 300, xmax = 300\<rparr>], None) \<and>
   \<not> isl (handleProcessResult None True
            (initEditor [\<lparr>ymin = 100, xmin = 100, ymax = 300, xmax = 300\<rparr>])) \<and>
   handleProcessResult None True
     (initEditor [\<lparr>ymin = 100, xmin = 100, ymax = 300, xmax = 300\<rparr>])
     = handleProcessResult (Some squareImage) False
         (initEditor [\<lparr>ymin = 100, xmin = 100, ymax = 300, xmax = 300\<rparr>])"
  by (simp add: handleProcessResult_def handleProcess_def)

text \<open>
  C9. Export leaves the editor state as it was: the box collection, the selection and the
  chosen category are the same after the call, with or without an image.
\<close>

theorem export_read_only:
  "boxes (fst (handleProcess imgRef ctx s)) = boxes s \<and>
   selectedIndex (fst (handleProcess imgRef ctx s)) = selectedIndex s \<and>
   selectedCategoryId (fst (handleProcess imgRef ctx s)) = selectedCategoryId s \<and>
   fst (handleProcess imgRef ctx s) = s"
  by (simp add: handleProcess_def Let_def split: option.splits)

section \<open>Seeding from the detector\<close>

text \<open>
  C4, as amended. The editor takes the detector's boxes as they are, when it starts and
  when the prop changes: nothing is clamped and nothing is rejected.
\<close>

theorem seed_is_verbatim:
  "boxes (initEditor detectedBoxes) = detectedBoxes \<and>
   boxes (syncDetectedBoxes s detectedBoxes) = detectedBoxes"
  by (simp add: initEditor_def syncDetectedBoxes_def)

text \<open>C4 as stated fails: a degenerate detector box is in the collection unchanged.\<close>

theorem seed_is_verbatim_counterexample:
  "boxes (initEditor [degenerateBox]) = [degenerateBox] \<and> \<not> validBox degenerateBox"
  by (simp add: initEditor_def degenerateBox_def validBox_def)


section \<open>Rounding to doubles\<close>

lemma power_int_scale:
  assumes "- int n \<le> e"
  shows "(2::real) powi e * 2 ^ n = 2 ^ nat (e + int n)"
proof -
  have "(2::real) powi e * 2 powi int n = 2 powi (e + int n)"
    by (simp add: power_int_add)
  also have "\<dots> = 2 powi int (nat (e + int n))" using assms by simp
  also have "\<dots> = 2 ^ nat (e + int n)" by (rule power_int_of_nat)
  finally show ?thesis by simp
qed

lemma bitlen_floor_scaled:
  assumes "2 powi e \<le> (a::real)" and "a < 2 powi (e + 1)" and "- int n \<le> e"
  shows "bitlen \<lfloor>a * 2 ^ n\<rfloor> = e + int n + 1"
proof -
  define k where "k = nat (e + int n)"
  let ?m = "\<lfloor>a * 2 ^ n\<rfloor>"
  have k: "int k = e + int n" using assms(3) by (simp add: k_def)
  have p1: "(2::real) powi e * 2 ^ n = 2 ^ k"
    unfolding k_def using assms(3) by (rule power_int_scale)
  have "(2::real) powi (e + 1) * 2 ^ n = 2 ^ nat (e + 1 + int n)"
    using assms(3) by (intro power_int_scale) simp
  moreover have "nat (e + 1 + int n) = Suc k" using assms(3) by (simp add: k_def)
  ultimately have p2: "(2::real) powi (e + 1) * 2 ^ n = 2 ^ Suc k" by simp
  have "2 powi e * 2 ^ n \<le> a * 2 ^ n"
    using assms(1) by (intro mult_right_mono) simp_all
  then have lo: "2 ^ k \<le> a * 2 ^ n" unfolding p1 .
  have "a * 2 ^ n < 2 powi (e + 1) * 2 ^ n"
    using assms(2) by (intro mult_strict_right_mono) simp_all
  then have hi: "a * 2 ^ n < 2 ^ Suc k" unfolding p2 .
  have mlo: "2 ^ k \<le> ?m"
    using lo by (subst le_floor_iff) simp
  have mhi: "?m < 2 ^ Suc k"
    using hi by (subst floor_less_iff) simp
  have "?m < 2 ^ nat (int (Suc k))"
    using mhi by (simp only: nat_int)
  then have le: "bitlen ?m \<le> int (Suc k)"
    by (subst bitlen_le_iff_power) (simp only: of_nat_0_le_iff simp_thms)
  have "2 ^ (nat (int (Suc k)) - 1) \<le> ?m"
    using mlo by (simp only: nat_int diff_Suc_1)
  then have ge: "int (Suc k) \<le> bitlen ?m"
    by (subst bitlen_ge_iff_power) (rule disjI2)
  from le ge have "bitlen ?m = int (Suc k)" by (rule order_antisym)
  then show ?thesis using k by simp
qed

lemma binade_eq:
  assumes "2 powi e \<le> \<bar>x\<bar>" and "\<bar>x\<bar> < 2 powi (e + 1)" and "- 1074 \<le> e"
  shows "binade x = e"
proof -
  have "bitlen \<lfloor>\<bar>x\<bar> * 2 ^ 1074\<rfloor> = e + int 1074 + 1"
    using assms by (intro bitlen_floor_scaled) simp_all
  then show ?thesis unfolding binade_def by simp
qed

lemma fl64_in_binade:
  assumes "2 powi e \<le> \<bar>x\<bar>" and "\<bar>x\<bar> < 2 powi (e + 1)" and "- 1022 \<le> e"
  shows "fl64 x = of_int (roundTiesToEven (x / 2 powi (e - 52))) * 2 powi (e - 52)"
proof -
  have "binade x = e" using assms by (intro binade_eq) simp_all
  then have "quantum x = e - 52" using assms(3) by (simp add: quantum_def)
  then show ?thesis by (simp add: fl64_def)
qed

lemma fl64_zero: "fl64 0 = 0"
  by (simp add: fl64_def roundTiesToEven_def)

section \<open>Moving\<close>

lemma moveBox_valid:
  assumes "validBox b"
  shows "validBox (moveBox b dx dy)"
  using assms by (simp add: validBox_def moveBox_def Let_def max_def min_def split: if_splits)

text \<open>The four edges after the move branch, whatever the rounding.\<close>

lemma edge_corrections:
  fixes a c ay cy w h r rh :: real
  assumes "nb =
     (let newBox0 = \<lparr>ymin = ay, xmin = a, ymax = cy, xmax = c\<rparr>;
          newBox1 = (if xmin newBox0 = 0 then newBox0\<lparr>xmax := w\<rparr> else newBox0);
          newBox2 = (if xmax newBox1 = 1000 then newBox1\<lparr>xmin := r\<rparr> else newBox1);
          newBox3 = (if ymin newBox2 = 0 then newBox2\<lparr>ymax := h\<rparr> else newBox2);
          newBox4 = (if ymax newBox3 = 1000 then newBox3\<lparr>ymin := rh\<rparr> else newBox3)
      in newBox4)"
  shows "xmax nb = (if a = 0 then w else c)"
    and "xmin nb = (if (if a = 0 then w else c) = 1000 then r else a)"
    and "ymax nb = (if ay = 0 then h else cy)"
    and "ymin nb = (if (if ay = 0 then h else cy) = 1000 then rh else ay)"
  by (simp_all add: assms Let_def)

lemma moveBoxR_edges:
  "xmax (moveBoxR rnd b dx dy) =
     (if max 0 (min 1000 (rnd (xmin b + dx))) = 0 then rnd (xmax b - xmin b)
      else max 0 (min 1000 (rnd (xmax b + dx))))"
  "xmin (moveBoxR rnd b dx dy) =
     (if (if max 0 (min 1000 (rnd (xmin b + dx))) = 0 then rnd (xmax b - xmin b)
          else max 0 (min 1000 (rnd (xmax b + dx)))) = 1000
      then rnd (1000 - rnd (xmax b - xmin b))
      else max 0 (min 1000 (rnd (xmin b + dx))))"
  "ymax (moveBoxR rnd b dx dy) =
     (if max 0 (min 1000 (rnd (ymin b + dy))) = 0 then rnd (ymax b - ymin b)
      else max 0 (min 1000 (rnd (ymax b + dy))))"
  "ymin (moveBoxR rnd b dx dy) =
     (if (if max 0 (min 1000 (rnd (ymin b + dy))) = 0 then rnd (ymax b - ymin b)
          else max 0 (min 1000 (rnd (ymax b + dy)))) = 1000
      then rnd (1000 - rnd (ymax b - ymin b))
      else max 0 (min 1000 (rnd (ymin b + dy))))"
  unfolding moveBoxR_def Let_def
  by (rule edge_corrections [OF refl, unfolded Let_def])+

lemma moveBoxR_left_clamp:
  assumes "rnd 0 = 0" and "rnd (xmin b + dx) \<le> 0"
  shows "xmin (moveBoxR rnd b dx dy) = 0 \<and> xmax (moveBoxR rnd b dx dy) = rnd (xmax b - xmin b)"
proof -
  have a0: "max 0 (min 1000 (rnd (xmin b + dx))) = 0"
    using assms(2) by simp
  show ?thesis
  proof (cases "rnd (xmax b - xmin b) = 1000")
    case True
    then show ?thesis by (simp add: moveBoxR_edges a0 assms(1))
  next
    case False
    then show ?thesis by (simp add: moveBoxR_edges a0)
  qed
qed

lemma moveBoxR_top_clamp:
  assumes "rnd 0 = 0" and "rnd (ymin b + dy) \<le> 0"
  shows "ymin (moveBoxR rnd b dx dy) = 0 \<and> ymax (moveBoxR rnd b dx dy) = rnd (ymax b - ymin b)"
proof -
  have a0: "max 0 (min 1000 (rnd (ymin b + dy))) = 0"
    using assms(2) by simp
  show ?thesis
  proof (cases "rnd (ymax b - ymin b) = 1000")
    case True
    then show ?thesis by (simp add: moveBoxR_edges a0 assms(1))
  next
    case False
    then show ?thesis by (simp add: moveBoxR_edges a0)
  qed
qed

text \<open>
  The arithmetic of one axis: \<open>M\<close> is the far edge and \<open>m\<close> the near edge after the step.
\<close>

lemma corrected_extent:
  fixes lo hi d eps A C w r :: real
  assumes "lo \<le> hi"
      and eA: "\<bar>A - (lo + d)\<bar> \<le> eps" and eC: "\<bar>C - (hi + d)\<bar> \<le> eps"
      and ew: "\<bar>w - (hi - lo)\<bar> \<le> eps" and er: "\<bar>r - (1000 - w)\<bar> \<le> eps"
      and r0: "w = 1000 \<longrightarrow> r = 0"
      and M: "M = (if max 0 (min 1000 A) = 0 then w else max 0 (min 1000 C))"
      and m: "m = (if M = 1000 then r else max 0 (min 1000 A))"
  shows "\<bar>(M - m) - (hi - lo)\<bar> \<le> 2 * eps"
proof -
  define a where "a = max 0 (min 1000 A)"
  define c where "c = max 0 (min 1000 C)"
  have M': "M = (if a = 0 then w else c)" and m': "m = (if M = 1000 then r else a)"
    using M m by (simp_all add: a_def c_def)
  consider (left) "a = 0" | (right) "a \<noteq> 0" "c = 1000" | (free) "a \<noteq> 0" "c \<noteq> 1000"
    by blast
  then show ?thesis
  proof cases
    case left
    then have "M = w" by (simp add: M')
    moreover have "m = 0" using left r0 \<open>M = w\<close> by (simp add: m')
    ultimately show ?thesis using ew by simp
  next
    case right
    then have "M = 1000" "m = r" by (simp_all add: M' m')
    then show ?thesis using ew er by linarith
  next
    case free
    then have Mm: "M = c" "m = a" by (simp_all add: M' m')
    have apos: "0 < a" using free(1) by (simp add: a_def)
    have clt: "c < 1000" using free(2) by (simp add: c_def)
    have da: "\<bar>a - (lo + d)\<bar> \<le> eps"
      using apos clt eA eC assms(1) unfolding a_def c_def by linarith
    have dc: "\<bar>c - (hi + d)\<bar> \<le> eps"
      using apos clt eA eC assms(1) unfolding a_def c_def by linarith
    show ?thesis unfolding Mm using da dc by linarith
  qed
qed

lemma moveBoxR_width:
  assumes "xmin b \<le> xmax b" and "rnd 0 = 0"
      and "roundsWithin rnd eps (xmin b + dx)" and "roundsWithin rnd eps (xmax b + dx)"
      and "roundsWithin rnd eps (xmax b - xmin b)"
      and "roundsWithin rnd eps (1000 - rnd (xmax b - xmin b))"
  shows "\<bar>(xmax (moveBoxR rnd b dx dy) - xmin (moveBoxR rnd b dx dy)) - (xmax b - xmin b)\<bar> \<le> 2 * eps"
proof (rule corrected_extent [OF assms(1)])
  show "\<bar>rnd (xmin b + dx) - (xmin b + dx)\<bar> \<le> eps" using assms(3) by (simp add: roundsWithin_def)
  show "\<bar>rnd (xmax b + dx) - (xmax b + dx)\<bar> \<le> eps" using assms(4) by (simp add: roundsWithin_def)
  show "\<bar>rnd (xmax b - xmin b) - (xmax b - xmin b)\<bar> \<le> eps" using assms(5) by (simp add: roundsWithin_def)
  show "\<bar>rnd (1000 - rnd (xmax b - xmin b)) - (1000 - rnd (xmax b - xmin b))\<bar> \<le> eps"
    using assms(6) by (simp add: roundsWithin_def)
  show "rnd (xmax b - xmin b) = 1000 \<longrightarrow> rnd (1000 - rnd (xmax b - xmin b)) = 0"
    using assms(2) by simp
  show "xmax (moveBoxR rnd b dx dy) =
     (if max 0 (min 1000 (rnd (xmin b + dx))) = 0 then rnd (xmax b - xmin b)
      else max 0 (min 1000 (rnd (xmax b + dx))))"
    by (rule moveBoxR_edges)
  show "xmin (moveBoxR rnd b dx dy) =
     (if xmax (moveBoxR rnd b dx dy) = 1000 then rnd (1000 - rnd (xmax b - xmin b))
      else max 0 (min 1000 (rnd (xmin b + dx))))"
    by (simp only: moveBoxR_edges)
qed

lemma moveBoxR_height:
  assumes "ymin b \<le> ymax b" and "rnd 0 = 0"
      and "roundsWithin rnd eps (ymin b + dy)" and "roundsWithin rnd eps (ymax b + dy)"
      and "roundsWithin rnd eps (ymax b - ymin b)"
      and "roundsWithin rnd eps (1000 - rnd (ymax b - ymin b))"
  shows "\<bar>(ymax (moveBoxR rnd b dx dy) - ymin (moveBoxR rnd b dx dy)) - (ymax b - ymin b)\<bar> \<le> 2 * eps"
proof (rule corrected_extent [OF assms(1)])
  show "\<bar>rnd (ymin b + dy) - (ymin b + dy)\<bar> \<le> eps" using assms(3) by (simp add: roundsWithin_def)
  show "\<bar>rnd (ymax b + dy) - (ymax b + dy)\<bar> \<le> eps" using assms(4) by (simp add: roundsWithin_def)
  show "\<bar>rnd (ymax b - ymin b) - (ymax b - ymin b)\<bar> \<le> eps" using assms(5) by (simp add: roundsWithin_def)
  show "\<bar>rnd (1000 - rnd (ymax b - ymin b)) - (1000 - rnd (ymax b - ymin b))\<bar> \<le> eps"
    using assms(6) by (simp add: roundsWithin_def)
  show "rnd (ymax b - ymin b) = 1000 \<longrightarrow> rnd (1000 - rnd (ymax b - ymin b)) = 0"
    using assms(2) by simp
  show "ymax (moveBoxR rnd b dx dy) =
     (if max 0 (min 1000 (rnd (ymin b + dy))) = 0 then rnd (ymax b - ymin b)
      else max 0 (min 1000 (rnd (ymax b + dy))))"
    by (rule moveBoxR_edges)
  show "ymin (moveBoxR rnd b dx dy) =
     (if ymax (moveBoxR rnd b dx dy) = 1000 then rnd (1000 - rnd (ymax b - ymin b))
      else max 0 (min 1000 (rnd (ymin b + dy))))"
    by (simp only: moveBoxR_edges)
qed

lemma moveBoxR_exact: "moveBoxR (\<lambda>v. v) b dx dy = moveBox b dx dy"
  by (simp only: moveBoxR_def moveBox_def)

text \<open>Without rounding the step is the one over the real numbers.\<close>

lemma resizeBoxR_exact: "resizeBoxR (\<lambda>v. v) b h nx ny = resizeBox b h nx ny"
  by (simp only: resizeBoxR_def resizeBox_def)

lemma pixelToNormR_exact: "pixelToNormR (\<lambda>v. v) val mx = pixelToNorm val mx"
  by (simp only: pixelToNormR_def pixelToNorm_def)

lemma handleMouseMoveR_exact:
  "handleMouseMoveR (\<lambda>v. v) canvasRef s x y = handleMouseMove canvasRef s x y"
  by (simp only: handleMouseMoveR_def handleMouseMove_def moveBoxR_exact resizeBoxR_exact
        pixelToNormR_exact)

lemma handleMouseMoveR_move:
  assumes "isDragging s" "dragMode s = DragMove" "selectedIndex s = Some i"
      and "i < length (boxes s)" "0 < width canvas" "0 < height canvas"
  shows "handleMouseMoveR rnd (Some canvas) s x y =
           Inr (s\<lparr>boxes := (boxes s)[i := moveBoxR rnd (boxes s ! i)
                      (pixelToNormR rnd (rnd (x - px (dragStart s))) (real (width canvas)))
                      (pixelToNormR rnd (rnd (y - py (dragStart s))) (real (height canvas)))],
                  dragStart := \<lparr>px = x, py = y\<rparr>\<rparr>)"
  using assms by (simp add: handleMouseMoveR_def Let_def)

text \<open>
  C5, as amended. A pointer-move in moving mode keeps the width and the height of the
  selected, not inverted box up to the rounding of the step: if each sum and difference
  the step computes is within \<open>eps\<close> of its exact value, width and height change by at
  most \<open>2 * eps\<close>, so they are kept exactly where nothing is rounded; every other box is
  left alone. A move stopped at the left (top) border ends exactly at \<open>xmin = 0\<close>
  (\<open>ymin = 0\<close>) with \<open>xmax\<close> (\<open>ymax\<close>) the width (height) computed before the move; a
  box 200 units wide whose left edge would go to \<open>-50\<close> ends at \<open>xmin = 0\<close>,
  \<open>xmax = 200\<close>.
\<close>

theorem move_preserves_size_up_to_rounding:
  assumes "isDragging s" and "dragMode s = DragMove" and "selectedIndex s = Some i"
      and "i < length (boxes s)" and "0 < width canvas" and "0 < height canvas"
      and "xmin (boxes s ! i) \<le> xmax (boxes s ! i)" and "ymin (boxes s ! i) \<le> ymax (boxes s ! i)"
      and "rnd 0 = 0"
      and "moveRoundsWithin rnd eps (boxes s ! i)
             (pixelToNormR rnd (rnd (x - px (dragStart s))) (real (width canvas)))
             (pixelToNormR rnd (rnd (y - py (dragStart s))) (real (height canvas)))"
  shows "case handleMouseMoveR rnd (Some canvas) s x y of
           Inl f \<Rightarrow> False
         | Inr s' \<Rightarrow>
             (let b = boxes s ! i; b' = boxes s' ! i;
                  dx = pixelToNormR rnd (rnd (x - px (dragStart s))) (real (width canvas));
                  dy = pixelToNormR rnd (rnd (y - py (dragStart s))) (real (height canvas))
              in \<bar>(xmax b' - xmin b') - (xmax b - xmin b)\<bar> \<le> 2 * eps \<and>
                 \<bar>(ymax b' - ymin b') - (ymax b - ymin b)\<bar> \<le> 2 * eps \<and>
                 (boxes s')[i := b] = boxes s \<and>
                 (rnd (xmin b + dx) \<le> 0 \<longrightarrow> xmin b' = 0 \<and> xmax b' = rnd (xmax b - xmin b)) \<and>
                 (rnd (ymin b + dy) \<le> 0 \<longrightarrow> ymin b' = 0 \<and> ymax b' = rnd (ymax b - ymin b)) \<and>
                 (xmax b - xmin b = 200 \<and> rnd 200 = 200 \<and> rnd (xmin b + dx) = - 50
                    \<longrightarrow> xmin b' = 0 \<and> xmax b' = 200))"
proof -
  let ?dx = "pixelToNormR rnd (rnd (x - px (dragStart s))) (real (width canvas))"
  let ?dy = "pixelToNormR rnd (rnd (y - py (dragStart s))) (real (height canvas))"
  let ?b = "boxes s ! i"
  let ?mb = "moveBoxR rnd ?b ?dx ?dy"
  have eq: "handleMouseMoveR rnd (Some canvas) s x y =
      Inr (s\<lparr>boxes := (boxes s)[i := ?mb], dragStart := \<lparr>px = x, py = y\<rparr>\<rparr>)"
    by (rule handleMouseMoveR_move [OF assms(1-6)])
  have at_i: "boxes (s\<lparr>boxes := (boxes s)[i := ?mb], dragStart := \<lparr>px = x, py = y\<rparr>\<rparr>) ! i = ?mb"
    using assms(4) by simp
  have rest: "(boxes (s\<lparr>boxes := (boxes s)[i := ?mb], dragStart := \<lparr>px = x, py = y\<rparr>\<rparr>))[i := ?b]
      = boxes s"
    by simp
  have rw: "roundsWithin rnd eps (xmin ?b + ?dx)" "roundsWithin rnd eps (xmax ?b + ?dx)"
    "roundsWithin rnd eps (xmax ?b - xmin ?b)"
    "roundsWithin rnd eps (1000 - rnd (xmax ?b - xmin ?b))"
    "roundsWithin rnd eps (ymin ?b + ?dy)" "roundsWithin rnd eps (ymax ?b + ?dy)"
    "roundsWithin rnd eps (ymax ?b - ymin ?b)"
    "roundsWithin rnd eps (1000 - rnd (ymax ?b - ymin ?b))"
    using assms(10) unfolding moveRoundsWithin_def by blast+
  have wd: "\<bar>(xmax ?mb - xmin ?mb) - (xmax ?b - xmin ?b)\<bar> \<le> 2 * eps"
    using assms(7) assms(9) rw(1-4) by (rule moveBoxR_width)
  have ht: "\<bar>(ymax ?mb - ymin ?mb) - (ymax ?b - ymin ?b)\<bar> \<le> 2 * eps"
    using assms(8) assms(9) rw(5-8) by (rule moveBoxR_height)
  have left: "xmin ?mb = 0 \<and> xmax ?mb = rnd (xmax ?b - xmin ?b)" if "rnd (xmin ?b + ?dx) \<le> 0"
    using assms(9) that by (rule moveBoxR_left_clamp)
  have top: "ymin ?mb = 0 \<and> ymax ?mb = rnd (ymax ?b - ymin ?b)" if "rnd (ymin ?b + ?dy) \<le> 0"
    using assms(9) that by (rule moveBoxR_top_clamp)
  have ex: "xmin ?mb = 0 \<and> xmax ?mb = 200"
    if "xmax ?b - xmin ?b = 200" and "rnd 200 = 200" and "rnd (xmin ?b + ?dx) = - 50"
    using left that by simp
  have "\<bar>(xmax ?mb - xmin ?mb) - (xmax ?b - xmin ?b)\<bar> \<le> 2 * eps \<and>
        \<bar>(ymax ?mb - ymin ?mb) - (ymax ?b - ymin ?b)\<bar> \<le> 2 * eps \<and>
        boxes s = boxes s \<and>
        (rnd (xmin ?b + ?dx) \<le> 0 \<longrightarrow> xmin ?mb = 0 \<and> xmax ?mb = rnd (xmax ?b - xmin ?b)) \<and>
        (rnd (ymin ?b + ?dy) \<le> 0 \<longrightarrow> ymin ?mb = 0 \<and> ymax ?mb = rnd (ymax ?b - ymin ?b)) \<and>
        (xmax ?b - xmin ?b = 200 \<and> rnd 200 = 200 \<and> rnd (xmin ?b + ?dx) = - 50
           \<longrightarrow> xmin ?mb = 0 \<and> xmax ?mb = 200)"
    using wd ht left top ex by blast
  then show ?thesis
    unfolding eq sum.case Let_def at_i rest .
qed

text \<open>The doubles that the two example moves compute.\<close>

lemmas fl64_eval =
  fl64_zero
  fl64_in_binade [where e = "- 6"] fl64_in_binade [where e = "- 4"]
  fl64_in_binade [where e = "- 3"] fl64_in_binade [where e = 0]
  fl64_in_binade [where e = 4]
  fl64_in_binade [where e = 5] fl64_in_binade [where e = 6]
  fl64_in_binade [where e = 7] fl64_in_binade [where e = 8]
  fl64_in_binade [where e = 9]
  roundTiesToEven_def

lemma movingState_delta:
  "pixelToNormR fl64 (fl64 (400 - px (dragStart movingState))) (real (width squareCanvas)) = - 100"
  "pixelToNormR fl64 (fl64 (350 - py (dragStart movingState))) (real (height squareCanvas)) = - 150"
  by (simp_all add: pixelToNormR_def movingState_def squareCanvas_def fl64_eval)

lemma roundingState_delta:
  "pixelToNormR fl64 (fl64 (58 - px (dragStart roundingState))) (real (width wideCanvas))
     = 2720924774869675 / 140737488355328"
  "pixelToNormR fl64 (fl64 (0 - py (dragStart roundingState))) (real (height wideCanvas)) = 0"
  by (simp_all add: pixelToNormR_def roundingState_def wideCanvas_def fl64_eval)

lemma movingState_step:
  "handleMouseMoveR fl64 (Some squareCanvas) movingState 400 350 =
     Inr (movingState\<lparr>boxes := [\<lparr>ymin = 0, xmin = 0, ymax = 200, xmax = 200\<rparr>],
                      dragStart := \<lparr>px = 400, py = 350\<rparr>\<rparr>)"
proof -
  have mb: "moveBoxR fl64 \<lparr>ymin = 100, xmin = 50, ymax = 300, xmax = 250\<rparr> (- 100) (- 150)
      = \<lparr>ymin = 0, xmin = 0, ymax = 200, xmax = 200\<rparr>"
    by (simp add: moveBoxR_def Let_def fl64_eval)
  have "0 < length (boxes movingState)" "isDragging movingState" "dragMode movingState = DragMove"
    "selectedIndex movingState = Some 0" "0 < width squareCanvas" "0 < height squareCanvas"
    by (simp_all add: movingState_def squareCanvas_def)
  then have "handleMouseMoveR fl64 (Some squareCanvas) movingState 400 350 =
      Inr (movingState\<lparr>boxes := (boxes movingState)[0 := moveBoxR fl64 (boxes movingState ! 0)
             (pixelToNormR fl64 (fl64 (400 - px (dragStart movingState))) (real (width squareCanvas)))
             (pixelToNormR fl64 (fl64 (350 - py (dragStart movingState))) (real (height squareCanvas)))],
           dragStart := \<lparr>px = 400, py = 350\<rparr>\<rparr>)"
    by (intro handleMouseMoveR_move)
  then show ?thesis
    unfolding movingState_delta by (simp add: movingState_def mb)
qed

lemma roundingState_step:
  "handleMouseMoveR fl64 (Some wideCanvas) roundingState 58 0 =
     Inr (roundingState\<lparr>boxes := [\<lparr>ymin = 100, xmin = 7928211844016811 / 140737488355328,
                                     ymax = 300, xmax = 4509463689385301 / 17592186044416\<rparr>],
                        dragStart := \<lparr>px = 58, py = 0\<rparr>\<rparr>)"
proof -
  have mb: "moveBoxR fl64 \<lparr>ymin = 100, xmin = 37, ymax = 300, xmax = 237\<rparr>
               (2720924774869675 / 140737488355328) 0
      = \<lparr>ymin = 100, xmin = 7928211844016811 / 140737488355328,
         ymax = 300, xmax = 4509463689385301 / 17592186044416\<rparr>"
    by (simp add: moveBoxR_def Let_def fl64_eval)
  have "0 < length (boxes roundingState)" "isDragging roundingState" "dragMode roundingState = DragMove"
    "selectedIndex roundingState = Some 0" "0 < width wideCanvas" "0 < height wideCanvas"
    by (simp_all add: roundingState_def wideCanvas_def)
  then have "handleMouseMoveR fl64 (Some wideCanvas) roundingState 58 0 =
      Inr (roundingState\<lparr>boxes := (boxes roundingState)[0 := moveBoxR fl64 (boxes roundingState ! 0)
             (pixelToNormR fl64 (fl64 (58 - px (dragStart roundingState))) (real (width wideCanvas)))
             (pixelToNormR fl64 (fl64 (0 - py (dragStart roundingState))) (real (height wideCanvas)))],
           dragStart := \<lparr>px = 58, py = 0\<rparr>\<rparr>)"
    by (intro handleMouseMoveR_move)
  then show ?thesis
    unfolding roundingState_delta by (simp add: roundingState_def mb)
qed

text \<open>
  Two moves in double arithmetic. The box from 50 to 250 (and from 100 to 300 down the
  image) is dragged 100 pixels left and 150 pixels up on a canvas of 1000 pixels: all
  results are exact and the box ends in the corner with its size. The box from 37 to 237
  is dragged 58 pixels right on a canvas of 3000 pixels: the right edge is rounded by
  \<open>3 / 2 ^ 47\<close>, within the bound.
\<close>

theorem move_preserves_size_up_to_rounding_witness:
  "isDragging movingState \<and> dragMode movingState = DragMove \<and>
   selectedIndex movingState = Some 0 \<and> 0 < length (boxes movingState) \<and>
   0 < width squareCanvas \<and> 0 < height squareCanvas \<and>
   xmin (boxes movingState ! 0) \<le> xmax (boxes movingState ! 0) \<and>
   ymin (boxes movingState ! 0) \<le> ymax (boxes movingState ! 0) \<and>
   fl64 0 = 0 \<and>
   moveRoundsWithin fl64 0 (boxes movingState ! 0) (- 100) (- 150) \<and>
   xmax (boxes movingState ! 0) - xmin (boxes movingState ! 0) = 200 \<and> fl64 200 = 200 \<and>
   fl64 (xmin (boxes movingState ! 0) + - 100) = - 50 \<and>
   fl64 (ymin (boxes movingState ! 0) + - 150) \<le> 0 \<and>
   (case handleMouseMoveR fl64 (Some squareCanvas) movingState 400 350 of
      Inl f \<Rightarrow> False
    | Inr s' \<Rightarrow> boxes s' = [\<lparr>ymin = 0, xmin = 0, ymax = 200, xmax = 200\<rparr>]) \<and>
   moveRoundsWithin fl64 (1 / 2 ^ 45) (boxes roundingState ! 0)
     (2720924774869675 / 140737488355328) 0 \<and>
   (case handleMouseMoveR fl64 (Some wideCanvas) roundingState 58 0 of
      Inl f \<Rightarrow> False
    | Inr s' \<Rightarrow>
        \<bar>(xmax (boxes s' ! 0) - xmin (boxes s' ! 0)) - 200\<bar> \<le> 2 * (1 / 2 ^ 45) \<and>
        ymax (boxes s' ! 0) - ymin (boxes s' ! 0) = 200)"
proof -
  have a: "isDragging movingState" "dragMode movingState = DragMove"
    "selectedIndex movingState = Some 0" "0 < length (boxes movingState)"
    "0 < width squareCanvas" "0 < height squareCanvas"
    "xmin (boxes movingState ! 0) \<le> xmax (boxes movingState ! 0)"
    "ymin (boxes movingState ! 0) \<le> ymax (boxes movingState ! 0)"
    by (simp_all add: movingState_def squareCanvas_def)
  have z: "fl64 0 = 0" by (rule fl64_zero)
  have ra: "moveRoundsWithin fl64 0 (boxes movingState ! 0) (- 100) (- 150)"
    by (simp add: moveRoundsWithin_def roundsWithin_def movingState_def fl64_eval)
  have xa: "xmax (boxes movingState ! 0) - xmin (boxes movingState ! 0) = 200" "fl64 200 = 200"
    "fl64 (xmin (boxes movingState ! 0) + - 100) = - 50"
    "fl64 (ymin (boxes movingState ! 0) + - 150) \<le> 0"
    by (simp_all add: movingState_def fl64_eval)
  have b: "isDragging roundingState" "dragMode roundingState = DragMove"
    "selectedIndex roundingState = Some 0" "0 < length (boxes roundingState)"
    "0 < width wideCanvas" "0 < height wideCanvas"
    "xmin (boxes roundingState ! 0) \<le> xmax (boxes roundingState ! 0)"
    "ymin (boxes roundingState ! 0) \<le> ymax (boxes roundingState ! 0)"
    by (simp_all add: roundingState_def wideCanvas_def)
  have rb: "moveRoundsWithin fl64 (1 / 2 ^ 45) (boxes roundingState ! 0)
     (2720924774869675 / 140737488355328) 0"
    by (simp add: moveRoundsWithin_def roundsWithin_def roundingState_def fl64_eval)
  have ta: "case handleMouseMoveR fl64 (Some squareCanvas) movingState 400 350 of
      Inl f \<Rightarrow> False
    | Inr s' \<Rightarrow> boxes s' = [\<lparr>ymin = 0, xmin = 0, ymax = 200, xmax = 200\<rparr>]"
    using move_preserves_size_up_to_rounding
            [where rnd = fl64 and eps = 0 and s = movingState and i = 0
               and canvas = squareCanvas and x = 400 and y = 350,
             OF a z, unfolded movingState_delta, OF ra]
    unfolding movingState_step by (simp add: movingState_def)
  have tb: "case handleMouseMoveR fl64 (Some wideCanvas) roundingState 58 0 of
      Inl f \<Rightarrow> False
    | Inr s' \<Rightarrow>
        \<bar>(xmax (boxes s' ! 0) - xmin (boxes s' ! 0)) - 200\<bar> \<le> 2 * (1 / 2 ^ 45) \<and>
        ymax (boxes s' ! 0) - ymin (boxes s' ! 0) = 200"
    using move_preserves_size_up_to_rounding
            [where rnd = fl64 and eps = "1 / 2 ^ 45" and s = roundingState and i = 0
               and canvas = wideCanvas and x = 58 and y = 0,
             OF b z, unfolded roundingState_delta, OF rb]
    unfolding roundingState_step by (simp add: roundingState_def)
  show ?thesis using a z ra xa ta rb tb by blast
qed

text \<open>
  C5 as stated fails: in double arithmetic the box from 37 to 237, 200 units wide, dragged
  58 pixels right on a canvas of 3000 pixels is \<open>200 - 3 / 2 ^ 47\<close> units wide after
  the move (the program prints 199.99999999999997).
\<close>

theorem move_preserves_size_counterexample:
  "xmax (boxes roundingState ! 0) - xmin (boxes roundingState ! 0) = 200 \<and>
   map_sum id (\<lambda>s'. xmax (boxes s' ! 0) - xmin (boxes s' ! 0))
     (handleMouseMoveR fl64 (Some wideCanvas) roundingState 58 0) = Inr (200 - 3 / 2 ^ 47) \<and>
   200 - 3 / 2 ^ 47 \<noteq> (200::real)"
  unfolding roundingState_step by (simp add: roundingState_def)

text \<open>
  The hypothesis on the box matters: an inverted box that is stopped at the left border
  is not given its size back, since neither clamped edge is the one the code tests (all
  values here are integers, so nothing is rounded).
\<close>

lemma moveBox_inverted_example:
  "moveBox \<lparr>ymin = 100, xmin = 300, ymax = 200, xmax = 100\<rparr> (- 150) 0
     = \<lparr>ymin = 100, xmin = 150, ymax = 200, xmax = 0\<rparr>"
  by (simp add: moveBox_def Let_def)

section \<open>Resizing\<close>


lemma resizeBox_edges:
  "xmin (resizeBox b h nx ny) = (if h = NW \<or> h = SW then min nx (xmax b - 50) else xmin b)"
  "xmax (resizeBox b h nx ny) = (if h = NE \<or> h = SE then max nx (xmin b + 50) else xmax b)"
  "ymin (resizeBox b h nx ny) = (if h = NW \<or> h = NE then min ny (ymax b - 50) else ymin b)"
  "ymax (resizeBox b h nx ny) = (if h = SW \<or> h = SE then max ny (ymin b + 50) else ymax b)"
  by (cases h; simp add: resizeBox_def handleIncludes_def Let_def)+


lemma resizeBox_valid:
  assumes "validBox b" "minimumSize b"
      and "0 \<le> nx" "nx \<le> 1000" "0 \<le> ny" "ny \<le> 1000"
  shows "validBox (resizeBox b h nx ny)"
  using assms by (cases h; auto simp add: validBox_def minimumSize_def resizeBox_edges min_def max_def)



section \<open>The box invariant under editing\<close>

lemma handleMouseDown_boxes:
  assumes "handleMouseDown canvasRef s x y = Inr s'"
  shows "boxes s' = boxes s"
  using assms by (auto simp: handleMouseDown_def split: option.splits sum.splits)

lemma handleMouseMove_boxes:
  assumes "handleMouseMove canvasRef s x y = Inr s'"
  shows "boxes s' = boxes s
       \<or> (\<exists>i dx dy. selectedIndex s = Some i \<and> i < length (boxes s) \<and> dragMode s = DragMove \<and>
             boxes s' = (boxes s)[i := moveBox (boxes s ! i) dx dy])
       \<or> (\<exists>i h nx ny. selectedIndex s = Some i \<and> i < length (boxes s) \<and> dragMode s = DragResize \<and>
             0 \<le> nx \<and> nx \<le> 1000 \<and> 0 \<le> ny \<and> ny \<le> 1000 \<and>
             boxes s' = (boxes s)[i := resizeBox (boxes s ! i) h nx ny])"
proof (cases "isDragging s \<and> selectedIndex s \<noteq> None \<and> canvasRef \<noteq> None")
  case False
  then have "s' = s"
    using assms by (auto simp: handleMouseMove_def split: option.splits)
  then show ?thesis by simp
next
  case True
  then obtain i canvas where sel: "selectedIndex s = Some i" and cv: "canvasRef = Some canvas"
    and drag: "isDragging s" by auto
  show ?thesis
  proof (cases "dragMode s")
    case DragNone
    then have "s' = s" using assms sel cv drag by (simp add: handleMouseMove_def)
    then show ?thesis by simp
  next
    case DragMove
    let ?dx = "pixelToNorm (x - px (dragStart s)) (real (width canvas))"
    let ?dy = "pixelToNorm (y - py (dragStart s)) (real (height canvas))"
    have len: "i < length (boxes s)"
      using assms sel cv drag DragMove
      by (simp add: handleMouseMove_def split: if_splits)
    have "boxes s' = (boxes s)[i := moveBox (boxes s ! i) ?dx ?dy]"
      using assms sel cv drag DragMove
      by (auto simp: handleMouseMove_def Let_def split: if_splits)
    then show ?thesis using sel len DragMove by blast
  next
    case DragResize
    show ?thesis
    proof (cases "dragHandle s")
      case None
      then have "s' = s" using assms sel cv drag DragResize by (simp add: handleMouseMove_def)
      then show ?thesis by simp
    next
      case (Some h)
      let ?nx = "max 0 (min 1000 (pixelToNorm x (real (width canvas))))"
      let ?ny = "max 0 (min 1000 (pixelToNorm y (real (height canvas))))"
      have len: "i < length (boxes s)"
        using assms sel cv drag DragResize Some
        by (simp add: handleMouseMove_def split: if_splits)
      have "boxes s' = (boxes s)[i := resizeBox (boxes s ! i) h ?nx ?ny]"
        using assms sel cv drag DragResize Some
        by (auto simp: handleMouseMove_def Let_def split: if_splits)
      moreover have "0 \<le> ?nx" "?nx \<le> 1000" "0 \<le> ?ny" "?ny \<le> 1000" by simp_all
      ultimately show ?thesis using sel len DragResize by blast
    qed
  qed
qed

lemma valid_list_update:
  assumes "\<forall>b\<in>set bs. validBox b" and "validBox v"
  shows "\<forall>b\<in>set (bs[i := v]). validBox b"
  using assms set_update_subset_insert [of bs i v] by auto

lemma handleDeleteBox_subset: "set (boxes (handleDeleteBox s)) \<subseteq> set (boxes s)"
  by (auto simp: handleDeleteBox_def in_set_enumerate_eq split: option.splits)

text \<open>
  Every other editing path keeps the invariant: if every box is valid before, and in
  resizing mode the selected box is at least 50 units wide and high, then every box is
  valid after any step that the model follows.
\<close>

lemma sized_boxes_stay_valid:
  assumes "\<forall>b\<in>set (boxes s). validBox b"
      and "dragMode s = DragResize \<longrightarrow> selectedHasMinimumSize s"
      and "step canvasRef s e = Inr s'"
  shows "\<forall>b\<in>set (boxes s'). validBox b"
proof (cases e)
  case (MouseDown x y)
  then show ?thesis using assms handleMouseDown_boxes [of canvasRef s x y s'] by simp
next
  case (MouseMove x y)
  then have mv: "handleMouseMove canvasRef s x y = Inr s'" using assms(3) by simp
  from handleMouseMove_boxes [OF mv] show ?thesis
  proof (elim disjE exE conjE)
    assume "boxes s' = boxes s"
    then show ?thesis using assms(1) by simp
  next
    fix i dx dy
    assume i: "i < length (boxes s)" and eq: "boxes s' = (boxes s)[i := moveBox (boxes s ! i) dx dy]"
    have "validBox (boxes s ! i)" using assms(1) i by simp
    then have "validBox (moveBox (boxes s ! i) dx dy)" by (rule moveBox_valid)
    then show ?thesis unfolding eq using assms(1) by (rule valid_list_update [rotated])
  next
    fix i h nx ny
    assume sel: "selectedIndex s = Some i" and i: "i < length (boxes s)"
      and mode: "dragMode s = DragResize"
      and rng: "0 \<le> nx" "nx \<le> 1000" "0 \<le> ny" "ny \<le> 1000"
      and eq: "boxes s' = (boxes s)[i := resizeBox (boxes s ! i) h nx ny]"
    have v: "validBox (boxes s ! i)" using assms(1) i by simp
    have m: "minimumSize (boxes s ! i)"
      using assms(2) mode sel i by (simp add: selectedHasMinimumSize_def)
    have "validBox (resizeBox (boxes s ! i) h nx ny)"
      using v m rng by (rule resizeBox_valid)
    then show ?thesis unfolding eq using assms(1) by (rule valid_list_update [rotated])
  qed
next
  case MouseUp
  then show ?thesis using assms by (auto simp: handleMouseUp_def)
next
  case AddBox
  then show ?thesis using assms by (auto simp: handleAddBox_def validBox_def)
next
  case DeleteBox
  then show ?thesis using assms handleDeleteBox_subset [of s] by auto
qed

text \<open>
  C3. After every editing operation every box has \<open>xmin < xmax\<close>, \<open>ymin < ymax\<close> and all
  four coordinates in \<open>[0, 1000]\<close>. The resize step breaks this: it clamps the pointer to
  \<open>[0, 1000]\<close> and then lets the floor of 50 units override the clamp. A valid detector
  box 40 units wide at the right border is selected by a pointer-down in its body, released,
  and taken by its \<open>se\<close> handle; the first resize step puts \<open>xmax\<close> at
  \<open>xmin + 50 = 1010\<close>.
\<close>

theorem resize_floor_leaves_range:
  "validBox narrowBox \<and>
   map_sum id boxes
     (run (Some squareCanvas) (initEditor [narrowBox])
        [MouseDown 980 50, MouseUp, MouseDown 1000 100, MouseMove 1000 100])
     = Inr [\<lparr>ymin = 0, xmin = 960, ymax = 100, xmax = 1010\<rparr>] \<and>
   \<not> validBox \<lparr>ymin = 0, xmin = 960, ymax = 100, xmax = 1010\<rparr>"
  by (simp add: narrowBox_def validBox_def initEditor_def squareCanvas_def
        handleMouseDown_def getHandleHit_def insideBox_def normToPixel_def pixelToNorm_def
        handleMouseUp_def handleMouseMove_def resizeBox_def handleIncludes_def Let_def
        numeral_2_eq_2 numeral_3_eq_3)

text \<open>The same step in double arithmetic: every value is an integer and nothing is rounded.\<close>

lemma narrowBox_resize_in_doubles:
  "map_sum id boxes
     (handleMouseMoveR fl64 (Some squareCanvas)
        \<lparr>boxes = [narrowBox], selectedIndex = Some 0, selectedCategoryId = [],
         newCategoryName = [], dragMode = DragResize, dragHandle = Some SE,
         isDragging = True, dragStart = \<lparr>px = 980, py = 50\<rparr>\<rparr> 1000 100)
     = Inr [\<lparr>ymin = 0, xmin = 960, ymax = 100, xmax = 1010\<rparr>]"
  by (simp add: narrowBox_def squareCanvas_def handleMouseMoveR_def pixelToNormR_def
        resizeBoxR_def handleIncludes_def Let_def fl64_eval)

section \<open>Hit testing\<close>

lemma normToPixel_far_edge: "normToPixel a m + normToPixel (b - a) m = normToPixel b m"
  by (simp add: normToPixel_def algebra_simps diff_divide_distrib)

lemma getHandleHit_first_match:
  assumes "i < length bs"
  shows "getHandleHit (Some canvas) bs x y i =
           Inr (find (withinTolerance canvas (bs ! i) x y) [NW, NE, SW, SE])"
  using assms
  by (simp add: getHandleHit_def withinTolerance_def cornerOf_def Let_def normToPixel_far_edge)

lemma insideBox_pixelRect: "insideBox canvas b x y = pixelRectContains canvas b x y"
  by (simp add: insideBox_def pixelRectContains_def Let_def normToPixel_far_edge)

lemma clickedFrom_find:
  "clickedFrom canvas bs x y n = find (\<lambda>i. pixelRectContains canvas (bs ! i) x y) (rev [0..<n])"
  by (induction n) (simp_all add: insideBox_pixelRect)

lemma clickedFrom_topmost:
  "clickedFrom canvas bs x y (length bs) = topmostContaining canvas bs x y"
  by (simp add: clickedFrom_find topmostContaining_def)

lemma find_rev_upt_Some_iff:
  "find P (rev [0..<n]) = Some j \<longleftrightarrow> j < n \<and> P j \<and> (\<forall>k. j < k \<and> k < n \<longrightarrow> \<not> P k)"
proof (induction n)
  case 0
  then show ?case by simp
next
  case (Suc n)
  show ?case
  proof (cases "P n")
    case True
    then show ?thesis by (auto simp: less_Suc_eq)
  next
    case False
    then show ?thesis using Suc by (auto simp: less_Suc_eq)
  qed
qed

lemma topmostContaining_highest:
  "topmostContaining canvas bs x y = Some j \<longleftrightarrow>
     j < length bs \<and> pixelRectContains canvas (bs ! j) x y \<and>
     (\<forall>k. j < k \<and> k < length bs \<longrightarrow> \<not> pixelRectContains canvas (bs ! k) x y)"
  unfolding topmostContaining_def by (rule find_rev_upt_Some_iff)

text \<open>
  C7. On pointer-down the handles of the selected box are tried first, with the tolerance
  \<open>(canvas width / 1000) * 40\<close> on both axes, and a handle hit starts a resize whatever
  bodies lie under the pointer. Otherwise the boxes are tried from the last to the first
  and the first box whose pixel rectangle contains the pointer (bounds included) is
  selected and starts a move; with no such box the selection is cleared. With two
  overlapping boxes \<open>A\<close>, \<open>B\<close> and nothing selected, a pointer-down in the overlap
  selects \<open>B\<close>.
\<close>

theorem pointer_down_hit_test:
  assumes "case selectedIndex s of None \<Rightarrow> True | Some i \<Rightarrow> i < length (boxes s)"
  shows "handleMouseDown (Some canvas) s x y =
           Inr (case (case selectedIndex s of
                        None \<Rightarrow> None
                      | Some i \<Rightarrow> find (withinTolerance canvas (boxes s ! i) x y) [NW, NE, SW, SE]) of
                  Some h \<Rightarrow> s\<lparr>dragMode := DragResize, dragHandle := Some h, isDragging := True\<rparr>
                | None \<Rightarrow>
                    (case topmostContaining canvas (boxes s) x y of
                       Some j \<Rightarrow> s\<lparr>selectedIndex := Some j, dragMode := DragMove,
                                   isDragging := True, dragStart := \<lparr>px = x, py = y\<rparr>\<rparr>
                     | None \<Rightarrow> s\<lparr>selectedIndex := None\<rparr>))
       \<and> (selectedIndex s = None \<and> boxes s = [A, B] \<and>
          pixelRectContains canvas A x y \<and> pixelRectContains canvas B x y
            \<longrightarrow> map_sum id selectedIndex (handleMouseDown (Some canvas) s x y) = Inr (Some 1))"
proof -
  have main: "handleMouseDown (Some canvas) s x y =
           Inr (case (case selectedIndex s of
                        None \<Rightarrow> None
                      | Some i \<Rightarrow> find (withinTolerance canvas (boxes s ! i) x y) [NW, NE, SW, SE]) of
                  Some h \<Rightarrow> s\<lparr>dragMode := DragResize, dragHandle := Some h, isDragging := True\<rparr>
                | None \<Rightarrow>
                    (case topmostContaining canvas (boxes s) x y of
                       Some j \<Rightarrow> s\<lparr>selectedIndex := Some j, dragMode := DragMove,
                                   isDragging := True, dragStart := \<lparr>px = x, py = y\<rparr>\<rparr>
                     | None \<Rightarrow> s\<lparr>selectedIndex := None\<rparr>))"
  proof (cases "selectedIndex s")
    case None
    then show ?thesis
      by (simp add: handleMouseDown_def clickedFrom_topmost split: option.splits)
  next
    case (Some i)
    then have "i < length (boxes s)" using assms by simp
    then show ?thesis
      using Some
      by (simp add: handleMouseDown_def getHandleHit_first_match clickedFrom_topmost
               split: option.splits)
  qed
  have ab: "map_sum id selectedIndex (handleMouseDown (Some canvas) s x y) = Inr (Some 1)"
    if "selectedIndex s = None" and "boxes s = [A, B]"
      and "pixelRectContains canvas A x y" and "pixelRectContains canvas B x y"
  proof -
    have "topmostContaining canvas (boxes s) x y = Some 1"
      using that by (simp add: topmostContaining_highest)
    then show ?thesis using that(1) by (simp add: main)
  qed
  show ?thesis using main ab by blast
qed

text \<open>
  A pointer-down at \<open>(400, 400)\<close>, in the overlap of the two boxes, with nothing selected;
  and a pointer-down at \<open>(500, 500)\<close>, the \<open>se\<close> corner of the selected first box, which
  lies inside the body of the second.
\<close>

theorem pointer_down_hit_test_witness:
  "(case selectedIndex (initEditor [boxA, boxB]) of
      None \<Rightarrow> True | Some i \<Rightarrow> i < length (boxes (initEditor [boxA, boxB]))) \<and>
   selectedIndex (initEditor [boxA, boxB]) = None \<and>
   boxes (initEditor [boxA, boxB]) = [boxA, boxB] \<and>
   pixelRectContains squareCanvas boxA 400 400 \<and>
   pixelRectContains squareCanvas boxB 400 400 \<and>
   map_sum id selectedIndex
     (handleMouseDown (Some squareCanvas) (initEditor [boxA, boxB]) 400 400) = Inr (Some 1) \<and>
   pixelRectContains squareCanvas boxB 500 500 \<and>
   handleMouseDown (Some squareCanvas) ((initEditor [boxA, boxB])\<lparr>selectedIndex := Some 0\<rparr>) 500 500
     = Inr ((initEditor [boxA, boxB])
              \<lparr>selectedIndex := Some 0, dragMode := DragResize, dragHandle := Some SE,
               isDragging := True\<rparr>)"
proof -
  let ?s = "initEditor [boxA, boxB]"
  have h0: "case selectedIndex ?s of None \<Rightarrow> True | Some i \<Rightarrow> i < length (boxes ?s)"
    by (simp add: initEditor_def)
  have h1: "selectedIndex ?s = None" and h2: "boxes ?s = [boxA, boxB]"
    by (simp_all add: initEditor_def)
  have h3: "pixelRectContains squareCanvas boxA 400 400"
    and h4: "pixelRectContains squareCanvas boxB 400 400"
    and h5: "pixelRectContains squareCanvas boxB 500 500"
    by (simp_all add: pixelRectContains_def squareCanvas_def boxA_def boxB_def normToPixel_def)
  have r1: "map_sum id selectedIndex (handleMouseDown (Some squareCanvas) ?s 400 400) = Inr (Some 1)"
    using pointer_down_hit_test [OF h0, of squareCanvas 400 400 boxA boxB] h1 h2 h3 h4 by blast
  have g0: "case selectedIndex (?s\<lparr>selectedIndex := Some 0\<rparr>) of
              None \<Rightarrow> True | Some i \<Rightarrow> i < length (boxes (?s\<lparr>selectedIndex := Some 0\<rparr>))"
    by (simp add: initEditor_def)
  have r2: "handleMouseDown (Some squareCanvas) (?s\<lparr>selectedIndex := Some 0\<rparr>) 500 500
     = Inr (?s\<lparr>selectedIndex := Some 0, dragMode := DragResize, dragHandle := Some SE,
               isDragging := True\<rparr>)"
    using pointer_down_hit_test [OF g0, of squareCanvas 500 500 boxA boxB]
    by (simp add: initEditor_def withinTolerance_def cornerOf_def squareCanvas_def boxA_def
          normToPixel_def)
  show ?thesis using h0 h1 h2 h3 h4 h5 r1 r2 by blast
qed

text \<open>
  C10. The handle reported for a pointer position is the first of \<open>nw\<close>, \<open>ne\<close>, \<open>sw\<close>,
  \<open>se\<close> whose corner is within the tolerance on both axes, so the answer is fixed also
  where the pointer is within the tolerance of several corners.
\<close>

theorem handle_hit_priority:
  assumes "i < length bs"
  shows "getHandleHit (Some canvas) bs x y i =
           Inr (find (withinTolerance canvas (bs ! i) x y) [NW, NE, SW, SE])"
  using assms by (rule getHandleHit_first_match)

text \<open>
  The centre of a box of the minimum size is within the tolerance of all four corners;
  the hit is \<open>nw\<close>.
\<close>

theorem handle_hit_priority_witness:
  "0 < length [smallBox] \<and>
   withinTolerance squareCanvas ([smallBox] ! 0) 425 425 NW \<and>
   withinTolerance squareCanvas ([smallBox] ! 0) 425 425 NE \<and>
   withinTolerance squareCanvas ([smallBox] ! 0) 425 425 SW \<and>
   withinTolerance squareCanvas ([smallBox] ! 0) 425 425 SE \<and>
   getHandleHit (Some squareCanvas) [smallBox] 425 425 0 = Inr (Some NW)"
  using handle_hit_priority [of 0 "[smallBox]" squareCanvas 425 425]
  by (simp add: withinTolerance_def cornerOf_def squareCanvas_def smallBox_def normToPixel_def)

end
